theory Spec2Isabelle
  imports Complex_Main "HOL-Library.FSet"
begin

section \<open>LifeCode: a shallow embedding of \<^verbatim>\<open>src/1.py\<close>\<close>

text \<open>
  Conventions of the embedding.
  \<^item> A Python \<^verbatim>\<open>str\<close> is a \<open>string\<close>; a \<open>char\<close> stands for a code point below 256.
  \<^item> A Python \<^verbatim>\<open>float\<close> is a \<open>pyfloat\<close>: a real number, an infinity or NaN. Arithmetic on
    finite floats is the arithmetic of the reals (rounding is not modelled), and a
    float literal of the source denotes the decimal fraction it is written as.
  \<^item> A Python \<^verbatim>\<open>int\<close> and an element of an integer numpy array is an \<open>int\<close>.
  \<^item> Every exception the program can raise is a \<^verbatim>\<open>ValueError\<close>; a function that can
    raise returns a sum whose \<open>Inl\<close> carries the error.
\<close>

subsection \<open>Built-in conversions used by \<^verbatim>\<open>parse_dna\<close>\<close>

datatype py_error = ValueError

datatype pyfloat = Finite real | PosInf | NegInf | NaN

definition is_digit :: "char \<Rightarrow> bool" where
  "is_digit c = (c \<in> set ''0123456789'')"

text \<open>\<^verbatim>\<open>int(n)\<close> for a string \<^verbatim>\<open>n\<close> of one character: the value of a decimal digit,
  \<^verbatim>\<open>ValueError\<close> for any other character.\<close>

definition py_int :: "char \<Rightarrow> py_error + int" where
  "py_int c = (if is_digit c then Inr (int (of_char c) - 48) else Inl ValueError)"

text \<open>The list comprehension \<^verbatim>\<open>[int(n) for n in cs]\<close>: the first failing conversion
  raises.\<close>

fun int_list :: "string \<Rightarrow> py_error + int list" where
  "int_list [] = Inr []"
| "int_list (c # cs) =
     (case py_int c of
        Inl e \<Rightarrow> Inl e
      | Inr v \<Rightarrow> (case int_list cs of Inl e \<Rightarrow> Inl e | Inr vs \<Rightarrow> Inr (v # vs)))"

text \<open>\<^verbatim>\<open>s.split(sep)\<close> for a separator of one character: one more part than there are
  separators in \<^verbatim>\<open>s\<close>.\<close>

fun split :: "char \<Rightarrow> string \<Rightarrow> string list" where
  "split sep [] = [[]]"
| "split sep (c # cs) =
     (if c = sep then [] # split sep cs
      else (case split sep cs of p # ps \<Rightarrow> (c # p) # ps | [] \<Rightarrow> [[c]]))"

text \<open>The tuple assignment \<^verbatim>\<open>a, b = parts\<close>: \<^verbatim>\<open>ValueError\<close> unless there are exactly
  two parts.\<close>

definition unpack2 :: "string list \<Rightarrow> py_error + string \<times> string" where
  "unpack2 parts = (case parts of [a, b] \<Rightarrow> Inr (a, b) | _ \<Rightarrow> Inl ValueError)"

text \<open>\<^verbatim>\<open>float(s)\<close>. Leading and trailing white space is dropped; then comes an optional
  sign and either \<^verbatim>\<open>inf\<close>, \<^verbatim>\<open>infinity\<close> or \<^verbatim>\<open>nan\<close> in any case, or a decimal number
  \<^verbatim>\<open>[digitpart] "." digitpart | digitpart ["."]\<close> with an optional exponent
  \<^verbatim>\<open>("e" | "E") ["+" | "-"] digitpart\<close>, where a \<^verbatim>\<open>digitpart\<close> is a run of digits that
  may hold single underscores between two digits.\<close>

definition is_space :: "char \<Rightarrow> bool" where
  "is_space c = ((of_char c :: nat) \<in> {9, 10, 11, 12, 13, 28, 29, 30, 31, 32, 133, 160})"

definition strip :: "string \<Rightarrow> string" where
  "strip s = rev (dropWhile is_space (rev (dropWhile is_space s)))"

definition lower :: "char \<Rightarrow> char" where
  "lower c = (if 65 \<le> (of_char c :: nat) \<and> (of_char c :: nat) \<le> 90
              then char_of ((of_char c :: nat) + 32) else c)"

fun digitpart :: "string \<Rightarrow> bool" where
  "digitpart [] = False"
| "digitpart [c] = is_digit c"
| "digitpart (c # d # cs) =
     (is_digit c \<and> (if d = CHR ''_'' then digitpart cs else digitpart (d # cs)))"

text \<open>The value of a \<^verbatim>\<open>digitpart\<close>, underscores skipped.\<close>

definition digits_value :: "string \<Rightarrow> nat" where
  "digits_value ds = foldl (\<lambda>acc c. 10 * acc + (of_char c - 48)) 0 (filter is_digit ds)"

definition number :: "string \<Rightarrow> real option" where
  "number m =
     (let ip = takeWhile (\<lambda>c. c \<noteq> CHR ''.'') m;
          r = dropWhile (\<lambda>c. c \<noteq> CHR ''.'') m
      in case r of
           [] \<Rightarrow> if digitpart ip then Some (real (digits_value ip)) else None
         | _ # fp \<Rightarrow>
             if (ip = [] \<and> digitpart fp) \<or> (digitpart ip \<and> (fp = [] \<or> digitpart fp))
             then Some (real (digits_value ip)
                        + real (digits_value fp) / 10 ^ length (filter is_digit fp))
             else None)"

definition exponent :: "string \<Rightarrow> int option" where
  "exponent ex =
     (case ex of
        c # ds \<Rightarrow>
          if c = CHR ''+'' then (if digitpart ds then Some (int (digits_value ds)) else None)
          else if c = CHR ''-'' then (if digitpart ds then Some (- int (digits_value ds)) else None)
          else if digitpart ex then Some (int (digits_value ex)) else None
      | [] \<Rightarrow> None)"

definition is_e :: "char \<Rightarrow> bool" where
  "is_e c = (c = CHR ''e'' \<or> c = CHR ''E'')"

definition floatnumber :: "string \<Rightarrow> real option" where
  "floatnumber body =
     (let m = takeWhile (\<lambda>c. \<not> is_e c) body;
          r = dropWhile (\<lambda>c. \<not> is_e c) body
      in case number m of
           None \<Rightarrow> None
         | Some v \<Rightarrow>
             (case r of
                [] \<Rightarrow> Some v
              | _ # ex \<Rightarrow>
                  (case exponent ex of
                     None \<Rightarrow> None
                   | Some k \<Rightarrow> Some (if 0 \<le> k then v * 10 ^ nat k else v / 10 ^ nat (- k)))))"

definition py_float :: "string \<Rightarrow> py_error + pyfloat" where
  "py_float s =
     (let t = strip s;
          neg = (case t of c # _ \<Rightarrow> c = CHR ''-'' | [] \<Rightarrow> False);
          body = (case t of c # r \<Rightarrow> if c = CHR ''+'' \<or> c = CHR ''-'' then r else t | [] \<Rightarrow> t);
          low = map lower body
      in if low = ''inf'' \<or> low = ''infinity'' then Inr (if neg then NegInf else PosInf)
         else if low = ''nan'' then Inr NaN
         else (case floatnumber body of
                 None \<Rightarrow> Inl ValueError
               | Some v \<Rightarrow> Inr (Finite (if neg then - v else v))))"

subsection \<open>\<^verbatim>\<open>parse_dna\<close>\<close>

definition parse_dna :: "string \<Rightarrow> py_error + int list \<times> int list \<times> pyfloat" where
  "parse_dna dna_string =
     (case unpack2 (split (CHR ''/'') dna_string) of
        Inl e \<Rightarrow> Inl e
      | Inr (b_part, rest) \<Rightarrow>
          (case unpack2 (split (CHR ''|'') rest) of
             Inl e \<Rightarrow> Inl e
           | Inr (s_part, m_part) \<Rightarrow>
               (case int_list (drop 1 b_part) of
                  Inl e \<Rightarrow> Inl e
                | Inr birth \<Rightarrow>
                    (case int_list (drop 1 s_part) of
                       Inl e \<Rightarrow> Inl e
                     | Inr survive \<Rightarrow>
                         (case py_float (drop 1 m_part) of
                            Inl e \<Rightarrow> Inl e
                          | Inr mutation \<Rightarrow> Inr (birth, survive, mutation))))))"

subsection \<open>Program state\<close>

definition GRID_SIZE :: nat where
  "GRID_SIZE = 50"

text \<open>A two-dimensional numpy array \<^verbatim>\<open>a\<close> of shape \<^verbatim>\<open>(GRID_SIZE, GRID_SIZE)\<close>: \<open>a y x\<close> is
  \<^verbatim>\<open>a[y][x]\<close>. Only indices below \<open>GRID_SIZE\<close> are ever read or written.\<close>

type_synonym 'a array2 = "nat \<Rightarrow> nat \<Rightarrow> 'a"

text \<open>The assignment \<^verbatim>\<open>a[y][x] = v\<close>.\<close>

definition set2 :: "'a array2 \<Rightarrow> nat \<Rightarrow> nat \<Rightarrow> 'a \<Rightarrow> 'a array2" where
  "set2 a y x v = a(y := (a y)(x := v))"

text \<open>The rule sets are Python lists and sets, passed by reference. They live in an
  object store: a reference is an index into the list of objects, and a new object is
  appended at the end.\<close>

datatype pyobj = PyList "int list" | PySet "int fset"

text \<open>\<^verbatim>\<open>set(ob)\<close>: the elements of a list or of a set, as a new set value.\<close>

fun py_set :: "pyobj \<Rightarrow> int fset" where
  "py_set (PyList xs) = fset_of_list xs"
| "py_set (PySet A) = A"

text \<open>\<^verbatim>\<open>v in ob\<close>.\<close>

definition py_in :: "int \<Rightarrow> pyobj \<Rightarrow> bool" where
  "py_in v ob = (v |\<in>| py_set ob)"

definition alloc :: "pyobj \<Rightarrow> pyobj list \<Rightarrow> nat \<times> pyobj list" where
  "alloc ob h = (length h, h @ [ob])"

text \<open>The module's global variables, and the object store.\<close>

record pystate =
  DNA :: string
  grid :: "int array2"
  nutrient_map :: "real array2"
  history_map :: "int array2"
  wave_phase :: real
  heap :: "pyobj list"

text \<open>The local variables of \<^verbatim>\<open>main\<close>; \<open>main_birth\<close> and \<open>main_survive\<close> are references
  to lists.\<close>

record locals =
  main_birth :: nat
  main_survive :: nat
  main_mutation :: pyfloat
  main_paused :: bool

subsection \<open>\<^verbatim>\<open>animate_nutrients\<close>\<close>

definition animate_cell :: "nat \<Rightarrow> nat \<Rightarrow> pystate \<Rightarrow> pystate" where
  "animate_cell y x s =
     (let wave = 0.5 + 0.5 * sin (wave_phase s + real x * 0.1 + real y * 0.1);
          base = nutrient_map s y x
      in s\<lparr>nutrient_map := set2 (nutrient_map s) y x (max 0.0 (min 1.0 (0.7 * base + 0.3 * wave)))\<rparr>)"

definition animate_nutrients :: "pystate \<Rightarrow> pystate" where
  "animate_nutrients s =
     (let s1 = s\<lparr>wave_phase := wave_phase s + 0.05\<rparr>
      in fold (\<lambda>y. fold (\<lambda>x. animate_cell y x) [0..<GRID_SIZE]) [0..<GRID_SIZE] s1)"

subsection \<open>\<^verbatim>\<open>mutate_rule\<close>\<close>

text \<open>The outcomes of the calls of \<^verbatim>\<open>random\<close> that one call of \<^verbatim>\<open>maybe_flip\<close> can make:
  \<^verbatim>\<open>random.random()\<close>, \<^verbatim>\<open>random.choice(["add", "remove"])\<close> and \<^verbatim>\<open>random.randint(0, 8)\<close>.
  The last two are read only when the first is below the mutation rate.\<close>

datatype choice = Add | Remove

record draw =
  rnd_random :: real
  rnd_choice :: choice
  rnd_randint :: int

definition valid_draw :: "draw \<Rightarrow> bool" where
  "valid_draw d = (0 \<le> rnd_random d \<and> rnd_random d < 1 \<and> 0 \<le> rnd_randint d \<and> rnd_randint d \<le> 8)"

text \<open>\<^verbatim>\<open>r < mutation_rate\<close> for a finite \<^verbatim>\<open>r\<close>.\<close>

fun float_lt :: "real \<Rightarrow> pyfloat \<Rightarrow> bool" where
  "float_lt r (Finite q) = (r < q)"
| "float_lt r PosInf = True"
| "float_lt r NegInf = False"
| "float_lt r NaN = False"

definition maybe_flip :: "pyfloat \<Rightarrow> draw \<Rightarrow> nat \<Rightarrow> pyobj list \<Rightarrow> nat \<times> pyobj list" where
  "maybe_flip mutation_rate d ruleset h =
     (let (rules, h1) = alloc (PySet (py_set (h ! ruleset))) h;
          h2 = (if float_lt (rnd_random d) mutation_rate then
                  (let op = rnd_choice d; val = rnd_randint d
                   in if op = Add then
                        h1[rules := PySet (finsert val (py_set (h1 ! rules)))]
                      else if op = Remove \<and> py_in val (h1 ! rules) then
                        h1[rules := PySet (py_set (h1 ! rules) |-| {|val|})]
                      else h1)
                else h1)
      in alloc (PyList (sorted_list_of_fset (py_set (h2 ! rules)))) h2)"

definition mutate_rule ::
  "nat \<Rightarrow> nat \<Rightarrow> pyfloat \<Rightarrow> draw \<times> draw \<Rightarrow> pyobj list \<Rightarrow> (nat \<times> nat) \<times> pyobj list" where
  "mutate_rule birth survive mutation_rate ds h =
     (let (b_mut, h1) = maybe_flip mutation_rate (fst ds) birth h;
          (s_mut, h2) = maybe_flip mutation_rate (snd ds) survive h1
      in ((b_mut, s_mut), h2))"

subsection \<open>\<^verbatim>\<open>count_neighbors\<close> and \<^verbatim>\<open>update_grid\<close>\<close>

definition count_neighbors :: "pystate \<Rightarrow> nat \<Rightarrow> nat \<Rightarrow> int" where
  "count_neighbors s x y =
     fold (\<lambda>dy. fold (\<lambda>dx total.
             if dx = 0 \<and> dy = 0 then total
             else (let nx = nat ((int x + dx) mod int GRID_SIZE);
                       ny = nat ((int y + dy) mod int GRID_SIZE)
                   in total + grid s ny nx))
           [-1, 0, 1])
       [-1, 0, 1] 0"

definition update_cell ::
  "nat \<Rightarrow> nat \<Rightarrow> nat \<Rightarrow> nat \<Rightarrow> int array2 \<times> pystate \<Rightarrow> int array2 \<times> pystate" where
  "update_cell b_mut s_mut y x = (\<lambda>(new_grid, s).
     let neighbors = count_neighbors s x y;
         nutrient_bonus = nutrient_map s y x;
         new_grid1 =
           (if grid s y x = 1 then
              (let survives = (py_in neighbors (heap s ! s_mut) \<or> nutrient_bonus > 0.9)
               in set2 new_grid y x (if survives then 1 else 0))
            else
              (let born = (py_in neighbors (heap s ! b_mut) \<and> nutrient_bonus > 0.1)
               in set2 new_grid y x (if born then 1 else 0)));
         s1 =
           (if new_grid1 y x = 1 then
              s\<lparr>history_map := set2 (history_map s) y x (min (history_map s y x + 1) 255)\<rparr>
            else
              s\<lparr>history_map := set2 (history_map s) y x (max (history_map s y x - 1) 0)\<rparr>)
     in (new_grid1, s1))"

definition update_grid :: "nat \<Rightarrow> nat \<Rightarrow> pyfloat \<Rightarrow> draw \<times> draw \<Rightarrow> pystate \<Rightarrow> pystate" where
  "update_grid birth survive mutation ds s =
     (let new_grid = (\<lambda>_ _. 0);
          ((b_mut, s_mut), h) = mutate_rule birth survive mutation ds (heap s);
          s0 = s\<lparr>heap := h\<rparr>;
          (new_grid1, s1) =
            fold (\<lambda>y. fold (\<lambda>x. update_cell b_mut s_mut y x) [0..<GRID_SIZE]) [0..<GRID_SIZE]
              (new_grid, s0)
      in s1\<lparr>grid := new_grid1\<rparr>)"

subsection \<open>The loop of \<^verbatim>\<open>main\<close>\<close>

text \<open>\<^verbatim>\<open>dna_input_gui\<close>, with the line the user types as an argument.\<close>

definition dna_input_gui :: "string \<Rightarrow> pystate \<Rightarrow> string" where
  "dna_input_gui user_input s = (if user_input \<noteq> [] then user_input else DNA s)"

text \<open>The branch of the key \<^verbatim>\<open>D\<close> (lines 143 and 144). When \<^verbatim>\<open>parse_dna\<close> raises, nothing
  catches the exception: it leaves \<^verbatim>\<open>main\<close>, and the result holds the variables as they
  are at that moment.\<close>

definition main_key_d ::
  "string \<Rightarrow> locals \<times> pystate \<Rightarrow> py_error \<times> locals \<times> pystate + locals \<times> pystate" where
  "main_key_d user_input = (\<lambda>(l, s).
     let s1 = s\<lparr>DNA := dna_input_gui user_input s\<rparr>
     in case parse_dna (DNA s1) of
          Inl e \<Rightarrow> Inl (e, l, s1)
        | Inr (b, sv, m) \<Rightarrow>
            (let (rb, h1) = alloc (PyList b) (heap s1);
                 (rs, h2) = alloc (PyList sv) h1
             in Inr (l\<lparr>main_birth := rb, main_survive := rs, main_mutation := m\<rparr>,
                     s1\<lparr>heap := h2\<rparr>)))"

text \<open>Lines 146 to 149: the nutrients are animated, and the grid is updated unless the
  simulation is paused.\<close>

definition main_step :: "locals \<Rightarrow> draw \<times> draw \<Rightarrow> pystate \<Rightarrow> pystate" where
  "main_step l ds s =
     (let s1 = animate_nutrients s
      in if \<not> main_paused l
         then update_grid (main_birth l) (main_survive l) (main_mutation l) ds s1
         else s1)"

text \<open>Consecutive iterations of the loop in which no key is pressed, one pair of draws
  for each.\<close>

definition main_steps :: "locals \<Rightarrow> (draw \<times> draw) list \<Rightarrow> pystate \<Rightarrow> pystate" where
  "main_steps l dss s = fold (main_step l) dss s"

subsection \<open>The state when the module is loaded\<close>

text \<open>Lines 15 to 22: the default rule text, three arrays of zeros and phase 0.\<close>

definition initial_state :: pystate where
  "initial_state =
     \<lparr>DNA = ''B3/S23|M0.01'', grid = (\<lambda>_ _. 0), nutrient_map = (\<lambda>_ _. 0.0),
      history_map = (\<lambda>_ _. 0), wave_phase = 0.0, heap = []\<rparr>"

subsection \<open>States used as examples\<close>

text \<open>A block of four live cells, every nutrient at 0.5, and the rule lists \<^verbatim>\<open>[3]\<close> and
  \<^verbatim>\<open>[2, 3]\<close> in the store; the local variables of \<^verbatim>\<open>main\<close> that refer to them, with
  mutation rate 0; and the draws of a call of \<^verbatim>\<open>maybe_flip\<close> in
  which \<^verbatim>\<open>random.random()\<close> is 0.5, the choice is \<^verbatim>\<open>"add"\<close> and the value is 4.\<close>

definition block_state :: pystate where
  "block_state =
     \<lparr>DNA = ''B3/S23|M0'',
      grid = (\<lambda>y x. if (y = 1 \<or> y = 2) \<and> (x = 1 \<or> x = 2) then 1 else 0),
      nutrient_map = (\<lambda>_ _. 0.5), history_map = (\<lambda>_ _. 0), wave_phase = 0.0,
      heap = [PyList [3], PyList [2, 3]]\<rparr>"

definition conway_locals :: locals where
  "conway_locals = \<lparr>main_birth = 0, main_survive = 1, main_mutation = Finite 0, main_paused = False\<rparr>"

definition half_draw :: draw where
  "half_draw = \<lparr>rnd_random = 0.5, rnd_choice = Add, rnd_randint = 4\<rparr>"

text \<open>A grid whose only live cell is \<open>(0, 0)\<close>.\<close>

definition single_cell_state :: pystate where
  "single_cell_state = initial_state\<lparr>grid := (\<lambda>y x. if x = 0 \<and> y = 0 then 1 else 0)\<rparr>"

text \<open>A grid on which every cell is alive, with the rule lists \<^verbatim>\<open>[]\<close> and \<^verbatim>\<open>[8]\<close> in the
  store; and the property that every cell of the grid is alive and the second object of
  the store is the list \<^verbatim>\<open>[8]\<close>.\<close>

definition full_state :: pystate where
  "full_state = initial_state\<lparr>grid := (\<lambda>_ _. 1), heap := [PyList [], PyList [8]]\<rparr>"

definition all_alive :: "pystate \<Rightarrow> bool" where
  "all_alive s = ((\<forall>y<GRID_SIZE. \<forall>x<GRID_SIZE. grid s y x = 1)
                  \<and> 1 < length (heap s) \<and> heap s ! 1 = PyList [8])"

text \<open>The local variables of \<^verbatim>\<open>main\<close> for the same two lists with mutation rate 1.0.\<close>

definition mutating_locals :: locals where
  "mutating_locals = \<lparr>main_birth = 0, main_survive = 1, main_mutation = Finite 1.0, main_paused = False\<rparr>"

section \<open>Properties\<close>

subsection \<open>Values of a parsed rule\<close>

lemma py_int_range: "py_int c = Inr v \<Longrightarrow> 0 \<le> v \<and> v \<le> 9"
  by (auto simp: py_int_def is_digit_def split: if_splits)

lemma int_list_range: "int_list cs = Inr vs \<Longrightarrow> v \<in> set vs \<Longrightarrow> 0 \<le> v \<and> v \<le> 9"
proof (induction cs arbitrary: vs)
  case Nil
  then show ?case by simp
next
  case (Cons c cs)
  then show ?case
    by (auto split: sum.splits dest: py_int_range)
qed

lemma parse_dna_InrD:
  assumes "parse_dna s = Inr (b, sv, m)"
  obtains b_part rest s_part m_part where
    "unpack2 (split (CHR ''/'') s) = Inr (b_part, rest)"
    "unpack2 (split (CHR ''|'') rest) = Inr (s_part, m_part)"
    "int_list (drop 1 b_part) = Inr b"
    "int_list (drop 1 s_part) = Inr sv"
    "py_float (drop 1 m_part) = Inr m"
  using assms unfolding parse_dna_def
  by (auto split: sum.splits prod.splits)

text \<open>
  C4, as the code has it. \<^verbatim>\<open>parse_dna\<close> converts every character after the first of the
  birth part and of the survival part with \<^verbatim>\<open>int\<close>, so every value of a parsed rule is
  a decimal digit: it lies between 0 and 9. Nothing restricts it to the neighbour counts
  0 to 8.
\<close>

theorem parse_dna_values_0_9:
  assumes "parse_dna s = Inr (b, sv, m)" and "v \<in> set b \<union> set sv"
  shows "0 \<le> v \<and> v \<le> 9"
  using assms by (elim parse_dna_InrD) (auto dest: int_list_range)

theorem parse_dna_values_0_9_witness:
  "parse_dna ''B3/S23|M0.01'' = Inr ([3], [2, 3], Finite (1 / 100)) \<and> (0::int) \<le> 3 \<and> (3::int) \<le> 9"
proof -
  have p: "parse_dna ''B3/S23|M0.01'' = Inr ([3], [2, 3], Finite (1 / 100))"
    by code_simp
  have "(3::int) \<in> set [3] \<union> set [2, 3]" by simp
  from parse_dna_values_0_9 [OF p this] p show ?thesis by simp
qed

text \<open>The rule \<^verbatim>\<open>B9/S23|M0.01\<close> is accepted, and its birth list holds 9.\<close>

theorem parse_dna_nine_counterexample:
  "parse_dna ''B9/S23|M0.01'' = Inr ([9], [2, 3], Finite (1 / 100))
   \<and> (9::int) \<in> set [9] \<and> \<not> (9::int) \<le> 8"
  by code_simp

subsection \<open>Loops over the grid\<close>

lemma fold_product:
  "fold (\<lambda>y. fold (\<lambda>x. f y x) xs) ys s = fold (\<lambda>(y, x). f y x) (List.product ys xs) s"
  by (induction ys arbitrary: s) (simp_all add: fold_map comp_def)

lemma fold_pointwise:
  assumes ctx: "\<And>i s. ctx (f i s) = ctx s"
    and get: "\<And>i s j. get (f i s) j = (if j = i then upd (ctx s) i (get s i) else get s j)"
    and "distinct is"
  shows "ctx (fold f is s) = ctx s
         \<and> get (fold f is s) j = (if j \<in> set is then upd (ctx s) j (get s j) else get s j)"
  using \<open>distinct is\<close>
proof (induction "is" arbitrary: s)
  case Nil
  then show ?case by simp
next
  case (Cons i "is")
  then have "i \<notin> set is" and "distinct is" by simp_all
  from Cons.IH [OF \<open>distinct is\<close>, of "f i s"] \<open>i \<notin> set is\<close>
  show ?case by (auto simp: ctx get)
qed

lemma set2_apply [simp]: "set2 a y x v y' x' = (if y' = y \<and> x' = x then v else a y' x')"
  by (simp add: set2_def)

lemma grid_cells: "set (List.product [0..<n] [0..<n]) = {(y, x). y < n \<and> x < n}"
  by auto


lemma animate_loop:
  assumes "distinct cells"
  shows "(\<lambda>s. (wave_phase s, grid s, history_map s, DNA s, heap s))
           (fold (\<lambda>(y, x). animate_cell y x) cells s)
         = (wave_phase s, grid s, history_map s, DNA s, heap s)
     \<and> (\<lambda>s (y, x). nutrient_map s y x) (fold (\<lambda>(y, x). animate_cell y x) cells s) j
       = (if j \<in> set cells
          then (\<lambda>(ph, _) (y, x) base.
                  max 0 (min 1 (0.7 * base + 0.3 * (0.5 + 0.5 * sin (ph + real x * 0.1 + real y * 0.1)))))
                 (wave_phase s, grid s, history_map s, DNA s, heap s) j
                 ((\<lambda>s (y, x). nutrient_map s y x) s j)
          else (\<lambda>s (y, x). nutrient_map s y x) s j)"
  by (rule fold_pointwise [OF _ _ assms])
     (auto simp: animate_cell_def Let_def split: if_splits)

lemma animate_nutrients_frame:
  "wave_phase (animate_nutrients s) = wave_phase s + 0.05"
  "grid (animate_nutrients s) = grid s"
  "history_map (animate_nutrients s) = history_map s"
  "DNA (animate_nutrients s) = DNA s"
  "heap (animate_nutrients s) = heap s"
  using animate_loop [of "List.product [0..<GRID_SIZE] [0..<GRID_SIZE]"
      "s\<lparr>wave_phase := wave_phase s + 0.05\<rparr>"]
  by (simp_all add: animate_nutrients_def fold_product distinct_product)

lemma animate_nutrients_cell:
  assumes "y < GRID_SIZE" "x < GRID_SIZE"
  shows "nutrient_map (animate_nutrients s) y x =
         max 0 (min 1 (0.7 * nutrient_map s y x
                       + 0.3 * (0.5 + 0.5 * sin ((wave_phase s + 0.05) + real x * 0.1 + real y * 0.1))))"
  using animate_loop [of "List.product [0..<GRID_SIZE] [0..<GRID_SIZE]"
      "s\<lparr>wave_phase := wave_phase s + 0.05\<rparr>" "(y, x)"] assms
  by (simp add: animate_nutrients_def fold_product distinct_product)

subsection \<open>The nutrient wave\<close>

lemma GRID_SIZE_pos: "0 < GRID_SIZE"
  by (simp add: GRID_SIZE_def)

text \<open>
  C3, as the code has it. \<^verbatim>\<open>animate_nutrients\<close> first advances \<^verbatim>\<open>wave_phase\<close> by 0.05 and
  then computes every cell from the advanced phase: the new value of the cell \<open>(x, y)\<close> is
  \<open>clamp (0.7 * old + 0.3 * (0.5 + 0.5 * sin ((phase + 0.05) + x * 0.1 + y * 0.1))) 0 1\<close>,
  where \<open>phase\<close> is the value at the start of the call.
\<close>

theorem animate_nutrients_phase_first:
  assumes "y < GRID_SIZE" "x < GRID_SIZE"
  shows "nutrient_map (animate_nutrients s) y x =
         max 0 (min 1 (0.7 * nutrient_map s y x
                       + 0.3 * (0.5 + 0.5 * sin ((wave_phase s + 0.05) + real x * 0.1 + real y * 0.1))))
         \<and> wave_phase (animate_nutrients s) = wave_phase s + 0.05"
  using assms by (simp add: animate_nutrients_cell animate_nutrients_frame)

theorem animate_nutrients_phase_first_witness:
  "(0::nat) < GRID_SIZE
   \<and> nutrient_map (animate_nutrients initial_state) 0 0 =
       max 0 (min 1 (0.7 * 0 + 0.3 * (0.5 + 0.5 * sin (0.05))))
   \<and> wave_phase (animate_nutrients initial_state) = 0.05"
  using animate_nutrients_phase_first [OF GRID_SIZE_pos GRID_SIZE_pos, of initial_state]
  by (simp add: initial_state_def GRID_SIZE_pos)

text \<open>From the state of a freshly loaded module (phase 0, nutrients 0), the cell \<open>(0, 0)\<close>
  does not get the value that the phase read before the increment would give.\<close>

theorem animate_nutrients_phase_counterexample:
  "nutrient_map (animate_nutrients initial_state) 0 0 \<noteq>
     max 0 (min 1 (0.7 * nutrient_map initial_state 0 0
                   + 0.3 * (0.5 + 0.5 * sin (wave_phase initial_state + real 0 * 0.1 + real 0 * 0.1))))"
proof -
  define w where "w = sin (0.05::real)"
  have pos: "0 < w"
    unfolding w_def by (rule sin_gt_zero_02) simp_all
  have le: "w \<le> 1"
    unfolding w_def by simp
  have code: "nutrient_map (animate_nutrients initial_state) 0 0
        = max 0 (min 1 (0.3 * (0.5 + 0.5 * w)))"
    unfolding w_def by (simp add: animate_nutrients_cell GRID_SIZE_pos initial_state_def)
  have "min 1 (0.3 * (0.5 + 0.5 * w)) = 0.3 * (0.5 + 0.5 * w)"
    using le by (intro min_absorb2) (simp add: field_simps)
  moreover have "max 0 (0.3 * (0.5 + 0.5 * w)) = 0.3 * (0.5 + 0.5 * w)"
    using pos by (intro max_absorb2) (simp add: field_simps)
  ultimately have lhs: "nutrient_map (animate_nutrients initial_state) 0 0 = 0.3 * (0.5 + 0.5 * w)"
    using code by simp
  have rhs: "max 0 (min 1 (0.7 * nutrient_map initial_state 0 0
                   + 0.3 * (0.5 + 0.5 * sin (wave_phase initial_state + real 0 * 0.1 + real 0 * 0.1))))
             = (0.15::real)"
    by (simp add: initial_state_def)
  show ?thesis
    unfolding lhs rhs using pos by (simp add: field_simps)
qed

subsection \<open>The transition\<close>

lemma count_neighbors_cong:
  "grid s = grid s' \<Longrightarrow> count_neighbors s x y = count_neighbors s' x y"
  by (simp add: count_neighbors_def)

lemma count_neighbors_history [simp]:
  "count_neighbors (s\<lparr>history_map := h\<rparr>) x y = count_neighbors s x y"
  by (simp add: count_neighbors_def)

lemma count_neighbors_heap [simp]:
  "count_neighbors (s\<lparr>heap := h\<rparr>) x y = count_neighbors s x y"
  by (simp add: count_neighbors_def)

text \<open>The value that \<^verbatim>\<open>update_grid\<close> gives to a cell.\<close>

lemma update_loop:
  assumes "distinct cells"
  shows "(\<lambda>(ng, s). s\<lparr>history_map := (\<lambda>_ _. 0)\<rparr>)
           (fold (\<lambda>(y, x). update_cell b_mut s_mut y x) cells (ng, s))
         = (\<lambda>(ng, s). s\<lparr>history_map := (\<lambda>_ _. 0)\<rparr>) (ng, s)
     \<and> (\<lambda>(ng, s) (y, x). (ng y x, history_map s y x))
          (fold (\<lambda>(y, x). update_cell b_mut s_mut y x) cells (ng, s)) j
       = (if j \<in> set cells
          then (\<lambda>c (y, x) (old, hist).
                  let v = (if grid c y x = 1
                           then (if py_in (count_neighbors c x y) (heap c ! s_mut) \<or> nutrient_map c y x > 0.9
                                 then 1 else 0)
                           else (if py_in (count_neighbors c x y) (heap c ! b_mut) \<and> nutrient_map c y x > 0.1
                                 then 1 else (0::int)))
                  in (v, if v = 1 then min (hist + 1) 255 else max (hist - 1) (0::int)))
                 ((\<lambda>(ng, s). s\<lparr>history_map := (\<lambda>_ _. 0)\<rparr>) (ng, s)) j
                 ((\<lambda>(ng, s) (y, x). (ng y x, history_map s y x)) (ng, s) j)
          else (\<lambda>(ng, s) (y, x). (ng y x, history_map s y x)) (ng, s) j)"
  by (rule fold_pointwise [OF _ _ assms])
     (auto simp: update_cell_def Let_def split: if_splits)


lemma update_grid_unfold:
  assumes "mutate_rule birth survive mutation ds (heap s) = ((b_mut, s_mut), h)"
  shows "update_grid birth survive mutation ds s =
         (case fold (\<lambda>(y, x). update_cell b_mut s_mut y x)
                 (List.product [0..<GRID_SIZE] [0..<GRID_SIZE]) ((\<lambda>_ _. 0), s\<lparr>heap := h\<rparr>)
          of (new_grid1, s1) \<Rightarrow> s1\<lparr>grid := new_grid1\<rparr>)"
  by (simp add: update_grid_def assms fold_product)

lemma update_grid_frame:
  assumes "mutate_rule birth survive mutation ds (heap s) = ((b_mut, s_mut), h)"
  shows "heap (update_grid birth survive mutation ds s) = h"
    and "nutrient_map (update_grid birth survive mutation ds s) = nutrient_map s"
    and "DNA (update_grid birth survive mutation ds s) = DNA s"
    and "wave_phase (update_grid birth survive mutation ds s) = wave_phase s"
proof -
  obtain ng1 s1 where f: "fold (\<lambda>(y, x). update_cell b_mut s_mut y x)
      (List.product [0..<GRID_SIZE] [0..<GRID_SIZE]) ((\<lambda>_ _. 0), s\<lparr>heap := h\<rparr>) = (ng1, s1)"
    by (cases "fold (\<lambda>(y, x). update_cell b_mut s_mut y x)
      (List.product [0..<GRID_SIZE] [0..<GRID_SIZE]) ((\<lambda>_ _. 0), s\<lparr>heap := h\<rparr>)") auto
  have "s1\<lparr>history_map := (\<lambda>_ _. 0)\<rparr> = s\<lparr>heap := h, history_map := (\<lambda>_ _. 0)\<rparr>"
    using update_loop [of "List.product [0..<GRID_SIZE] [0..<GRID_SIZE]" b_mut s_mut
        "\<lambda>_ _. 0" "s\<lparr>heap := h\<rparr>"]
    by (simp add: f distinct_product)
  then have "heap s1 = h \<and> nutrient_map s1 = nutrient_map s \<and> DNA s1 = DNA s
             \<and> wave_phase s1 = wave_phase s"
    by (metis pystate.select_convs pystate.surjective pystate.update_convs)
  then show "heap (update_grid birth survive mutation ds s) = h"
    and "nutrient_map (update_grid birth survive mutation ds s) = nutrient_map s"
    and "DNA (update_grid birth survive mutation ds s) = DNA s"
    and "wave_phase (update_grid birth survive mutation ds s) = wave_phase s"
    by (simp_all add: update_grid_unfold [OF assms] f)
qed


lemma update_grid_cell:
  assumes m: "mutate_rule birth survive mutation ds (heap s) = ((b_mut, s_mut), h)"
    and "y < GRID_SIZE" "x < GRID_SIZE"
  shows "grid (update_grid birth survive mutation ds s) y x =
           (if grid s y x = 1
            then (if py_in (count_neighbors s x y) (h ! s_mut) \<or> nutrient_map s y x > 0.9
                  then 1 else 0)
            else (if py_in (count_neighbors s x y) (h ! b_mut) \<and> nutrient_map s y x > 0.1
                  then 1 else 0))"
    and "history_map (update_grid birth survive mutation ds s) y x =
           (if grid (update_grid birth survive mutation ds s) y x = 1
            then min (history_map s y x + 1) 255
            else max (history_map s y x - 1) 0)"
proof -
  obtain ng1 s1 where f: "fold (\<lambda>(y, x). update_cell b_mut s_mut y x)
      (List.product [0..<GRID_SIZE] [0..<GRID_SIZE]) ((\<lambda>_ _. 0), s\<lparr>heap := h\<rparr>) = (ng1, s1)"
    by (cases "fold (\<lambda>(y, x). update_cell b_mut s_mut y x)
      (List.product [0..<GRID_SIZE] [0..<GRID_SIZE]) ((\<lambda>_ _. 0), s\<lparr>heap := h\<rparr>)") auto
  have u: "grid (update_grid birth survive mutation ds s) = ng1"
    "history_map (update_grid birth survive mutation ds s) = history_map s1"
    by (simp_all add: update_grid_unfold [OF m] f)
  from update_loop [of "List.product [0..<GRID_SIZE] [0..<GRID_SIZE]" b_mut s_mut
        "\<lambda>_ _. 0" "s\<lparr>heap := h\<rparr>" "(y, x)"] assms(2,3)
  have "(ng1 y x, history_map s1 y x) =
        (let v = (if grid s y x = 1
                  then (if py_in (count_neighbors s x y) (h ! s_mut) \<or> nutrient_map s y x > 0.9
                        then 1 else 0)
                  else (if py_in (count_neighbors s x y) (h ! b_mut) \<and> nutrient_map s y x > 0.1
                        then 1 else (0::int)))
         in (v, if v = 1 then min (history_map s y x + 1) 255 else max (history_map s y x - 1) 0))"
    by (simp add: f distinct_product)
  then show "grid (update_grid birth survive mutation ds s) y x =
           (if grid s y x = 1
            then (if py_in (count_neighbors s x y) (h ! s_mut) \<or> nutrient_map s y x > 0.9
                  then 1 else 0)
            else (if py_in (count_neighbors s x y) (h ! b_mut) \<and> nutrient_map s y x > 0.1
                  then 1 else 0))"
    and "history_map (update_grid birth survive mutation ds s) y x =
           (if grid (update_grid birth survive mutation ds s) y x = 1
            then min (history_map s y x + 1) 255
            else max (history_map s y x - 1) 0)"
    unfolding u by (simp_all add: Let_def)
qed

lemma update_grid_outside:
  assumes "\<not> (y < GRID_SIZE \<and> x < GRID_SIZE)"
  shows "grid (update_grid birth survive mutation ds s) y x = 0"
    and "history_map (update_grid birth survive mutation ds s) y x = history_map s y x"
proof -
  obtain b_mut s_mut h where m: "mutate_rule birth survive mutation ds (heap s) = ((b_mut, s_mut), h)"
    by (metis surj_pair)
  obtain ng1 s1 where f: "fold (\<lambda>(y, x). update_cell b_mut s_mut y x)
      (List.product [0..<GRID_SIZE] [0..<GRID_SIZE]) ((\<lambda>_ _. 0), s\<lparr>heap := h\<rparr>) = (ng1, s1)"
    by (cases "fold (\<lambda>(y, x). update_cell b_mut s_mut y x)
      (List.product [0..<GRID_SIZE] [0..<GRID_SIZE]) ((\<lambda>_ _. 0), s\<lparr>heap := h\<rparr>)") auto
  have u: "grid (update_grid birth survive mutation ds s) = ng1"
    "history_map (update_grid birth survive mutation ds s) = history_map s1"
    by (simp_all add: update_grid_unfold [OF m] f)
  from update_loop [of "List.product [0..<GRID_SIZE] [0..<GRID_SIZE]" b_mut s_mut
        "\<lambda>_ _. 0" "s\<lparr>heap := h\<rparr>" "(y, x)"] assms
  have "(ng1 y x, history_map s1 y x) = (0, history_map s y x)"
    by (auto simp add: f distinct_product)
  then show "grid (update_grid birth survive mutation ds s) y x = 0"
    and "history_map (update_grid birth survive mutation ds s) y x = history_map s y x"
    unfolding u by simp_all
qed


lemma maybe_flip_eq:
  "maybe_flip mutation_rate d ruleset h =
     (let A = py_set (h ! ruleset);
          B = (if float_lt (rnd_random d) mutation_rate then
                 (if rnd_choice d = Add then finsert (rnd_randint d) A
                  else A |-| {|rnd_randint d|})
               else A)
      in (Suc (length h), h @ [PySet B, PyList (sorted_list_of_fset B)]))"
proof -
  have c: "rnd_choice d \<noteq> Add \<longleftrightarrow> rnd_choice d = Remove"
    by (cases "rnd_choice d") simp_all
  have r: "rnd_randint d |\<notin>| A \<Longrightarrow> A |-| {|rnd_randint d|} = A" for A
    by auto
  show ?thesis
    by (auto simp: maybe_flip_def alloc_def Let_def nth_append py_in_def c r)
qed

lemma maybe_flip_prefix:
  "maybe_flip mutation_rate d ruleset h = (r, h') \<Longrightarrow>
     r = Suc (length h) \<and> length h' = length h + 2 \<and> take (length h) h' = h
     \<and> (\<exists>xs. h' ! r = PyList xs)"
  by (auto simp: maybe_flip_eq Let_def nth_append)

lemma mutate_rule_prefix:
  assumes "mutate_rule birth survive mutation_rate ds h = ((b_mut, s_mut), h')"
  shows "b_mut = length h + 1" "s_mut = length h + 3" "length h' = length h + 4"
    "take (length h) h' = h"
  using assms
  by (auto simp: mutate_rule_def maybe_flip_eq Let_def split: prod.splits)

lemma mutate_rule_no_mutation:
  assumes "mutate_rule birth survive mutation_rate (db, dv) h = ((b_mut, s_mut), h')"
    and "\<not> float_lt (rnd_random db) mutation_rate" "\<not> float_lt (rnd_random dv) mutation_rate"
    and "birth < length h" "survive < length h"
  shows "py_in v (h' ! b_mut) \<longleftrightarrow> py_in v (h ! birth)"
    and "py_in v (h' ! s_mut) \<longleftrightarrow> py_in v (h ! survive)"
  using assms
  by (auto simp: mutate_rule_def maybe_flip_eq Let_def nth_append py_in_def split: prod.splits)

lemma main_step_grid:
  assumes "\<not> main_paused l"
    and "mutate_rule (main_birth l) (main_survive l) (main_mutation l) ds (heap s) = ((b_mut, s_mut), h)"
    and "y < GRID_SIZE" "x < GRID_SIZE"
  shows "grid (main_step l ds s) y x =
             (if grid s y x = 1
              then (if py_in (count_neighbors s x y) (h ! s_mut)
                       \<or> nutrient_map (animate_nutrients s) y x > 0.9 then 1 else 0)
              else (if py_in (count_neighbors s x y) (h ! b_mut)
                       \<and> nutrient_map (animate_nutrients s) y x > 0.1 then 1 else 0))"
    and "heap (main_step l ds s) = h"
proof -
  let ?a = "animate_nutrients s"
  have m: "mutate_rule (main_birth l) (main_survive l) (main_mutation l) ds (heap ?a) = ((b_mut, s_mut), h)"
    using assms(2) by (simp add: animate_nutrients_frame)
  have cn: "count_neighbors ?a x y = count_neighbors s x y"
    by (rule count_neighbors_cong) (simp add: animate_nutrients_frame)
  show "grid (main_step l ds s) y x =
             (if grid s y x = 1
              then (if py_in (count_neighbors s x y) (h ! s_mut)
                       \<or> nutrient_map (animate_nutrients s) y x > 0.9 then 1 else 0)
              else (if py_in (count_neighbors s x y) (h ! b_mut)
                       \<and> nutrient_map (animate_nutrients s) y x > 0.1 then 1 else 0))"
    using assms(1) update_grid_cell(1) [OF m assms(3,4)]
    by (simp add: main_step_def Let_def cn animate_nutrients_frame)
  show "heap (main_step l ds s) = h"
    using assms(1) update_grid_frame(1) [OF m]
    by (simp add: main_step_def Let_def)
qed

text \<open>
  C1. In an iteration that is not paused, the new grid is computed cell by cell from the
  grid before the iteration, the nutrient field as \<^verbatim>\<open>animate_nutrients\<close> has just left it,
  and the one pair of lists that the single call of \<^verbatim>\<open>mutate_rule\<close> returned: a live cell
  stays alive iff its neighbour count is in the mutated survival list or its nutrient is
  above 0.9, a dead cell becomes alive iff its neighbour count is in the mutated birth list
  and its nutrient is above 0.1.
\<close>

theorem main_step_cell_rule:
  assumes "\<not> main_paused l"
    and "mutate_rule (main_birth l) (main_survive l) (main_mutation l) ds (heap s) = ((b_mut, s_mut), h)"
  shows "\<forall>y<GRID_SIZE. \<forall>x<GRID_SIZE.
           grid (main_step l ds s) y x =
             (if grid s y x = 1
              then (if py_in (count_neighbors s x y) (h ! s_mut)
                       \<or> nutrient_map (animate_nutrients s) y x > 0.9 then 1 else 0)
              else (if py_in (count_neighbors s x y) (h ! b_mut)
                       \<and> nutrient_map (animate_nutrients s) y x > 0.1 then 1 else 0))"
  using main_step_grid(1) [OF assms] by blast

lemma block_mutate:
  "mutate_rule (main_birth conway_locals) (main_survive conway_locals) (main_mutation conway_locals)
     (half_draw, half_draw) (heap block_state)
   = ((3, 5), [PyList [3], PyList [2, 3], PySet {|3|}, PyList [3], PySet {|2, 3|}, PyList [2, 3]])"
  by code_simp

theorem main_step_cell_rule_witness:
  "grid (main_step conway_locals (half_draw, half_draw) block_state) 1 1 = 1
   \<and> grid (main_step conway_locals (half_draw, half_draw) block_state) 0 0 = 0"
proof -
  have p: "\<not> main_paused conway_locals" by (simp add: conway_locals_def)
  have c: "count_neighbors block_state 1 1 = 3" "count_neighbors block_state 0 0 = 1"
    by (simp_all add: count_neighbors_def block_state_def GRID_SIZE_def)
  have g: "(1::nat) < GRID_SIZE" "(0::nat) < GRID_SIZE" by (simp_all add: GRID_SIZE_def)
  from main_step_cell_rule [OF p block_mutate] g c
  show ?thesis
    by (simp add: block_state_def py_in_def)
qed

subsection \<open>Neighbour counting on the torus\<close>

lemma GRID_SIZE_ge3: "3 \<le> GRID_SIZE"
  by (simp add: GRID_SIZE_def)

lemma wrap_same: "x < GRID_SIZE \<Longrightarrow> nat ((int x + 0) mod int GRID_SIZE) = x"
  by simp

lemma wrap_up:
  "x < GRID_SIZE \<Longrightarrow> nat ((int x + 1) mod int GRID_SIZE) = (if x = GRID_SIZE - 1 then 0 else x + 1)"
proof (cases "x = GRID_SIZE - 1")
  case True
  assume "x < GRID_SIZE"
  with True have "int x + 1 = int GRID_SIZE" by simp
  with True show ?thesis by simp
next
  case False
  assume "x < GRID_SIZE"
  with False have "(int x + 1) mod int GRID_SIZE = int x + 1"
    by (intro mod_pos_pos_trivial) auto
  with False show ?thesis by simp
qed

lemma wrap_down:
  "x < GRID_SIZE \<Longrightarrow> nat ((int x + - 1) mod int GRID_SIZE) = (if x = 0 then GRID_SIZE - 1 else x - 1)"
proof (cases "x = 0")
  case True
  have "(- 1) mod int GRID_SIZE = int GRID_SIZE - 1"
    using GRID_SIZE_ge3 by (simp add: zmod_minus1)
  with True show ?thesis by simp
next
  case False
  assume "x < GRID_SIZE"
  with False have "(int x + - 1) mod int GRID_SIZE = int x + - 1"
    by (intro mod_pos_pos_trivial) auto
  with False show ?thesis by simp
qed

lemma count_neighbors_sum:
  "count_neighbors s x y =
     (let l = nat ((int x + - 1) mod int GRID_SIZE); c = nat ((int x + 0) mod int GRID_SIZE);
          r = nat ((int x + 1) mod int GRID_SIZE);
          u = nat ((int y + - 1) mod int GRID_SIZE); m = nat ((int y + 0) mod int GRID_SIZE);
          d = nat ((int y + 1) mod int GRID_SIZE)
      in grid s u l + grid s u c + grid s u r + grid s m l + grid s m r
         + grid s d l + grid s d c + grid s d r)"
  by (simp add: count_neighbors_def Let_def)

lemma wrapped:
  assumes "x < GRID_SIZE"
  shows "nat ((int x + - 1) mod int GRID_SIZE) < GRID_SIZE"
    and "nat ((int x + 1) mod int GRID_SIZE) < GRID_SIZE"
    and "nat ((int x + - 1) mod int GRID_SIZE) = 0 \<longleftrightarrow> x = 1"
    and "nat ((int x + 1) mod int GRID_SIZE) = 0 \<longleftrightarrow> x = GRID_SIZE - 1"
    and "nat ((int x + 0) mod int GRID_SIZE) = x"
  unfolding wrap_up [OF assms] wrap_down [OF assms] wrap_same [OF assms]
  using assms GRID_SIZE_ge3 by auto

text \<open>
  C7. Neighbour counting wraps around both axes. On the grid whose only live cell is
  \<open>(0, 0)\<close>, \<^verbatim>\<open>count_neighbors(x, y)\<close> is 1 at the eight cells \<open>(N-1, N-1)\<close>, \<open>(N-1, 0)\<close>,
  \<open>(0, N-1)\<close>, \<open>(1, 1)\<close>, \<open>(1, 0)\<close>, \<open>(0, 1)\<close>, \<open>(N-1, 1)\<close>, \<open>(1, N-1)\<close> and 0 at every
  other cell, \<open>(0, 0)\<close> included, where \<open>N\<close> is \<^verbatim>\<open>GRID_SIZE\<close>.
\<close>

theorem count_neighbors_single_cell:
  assumes "\<forall>y<GRID_SIZE. \<forall>x<GRID_SIZE. grid s y x = (if x = 0 \<and> y = 0 then 1 else 0)"
    and "x < GRID_SIZE" "y < GRID_SIZE"
  shows "count_neighbors s x y =
           (if (x, y) \<in> {(GRID_SIZE - 1, GRID_SIZE - 1), (GRID_SIZE - 1, 0), (0, GRID_SIZE - 1),
                          (1, 1), (1, 0), (0, 1), (GRID_SIZE - 1, 1), (1, GRID_SIZE - 1)}
            then 1 else 0)"
proof -
  define l r u d where "l = nat ((int x + - 1) mod int GRID_SIZE)"
    and "r = nat ((int x + 1) mod int GRID_SIZE)"
    and "u = nat ((int y + - 1) mod int GRID_SIZE)"
    and "d = nat ((int y + 1) mod int GRID_SIZE)"
  have g: "grid s b a = (if a = 0 \<and> b = 0 then 1 else 0)" if "a < GRID_SIZE" "b < GRID_SIZE" for a b
    using assms(1) that by simp
  have lt: "l < GRID_SIZE" "r < GRID_SIZE" "u < GRID_SIZE" "d < GRID_SIZE"
    unfolding l_def r_def u_def d_def using wrapped(1,2) assms(2,3) by simp_all
  have z: "l = 0 \<longleftrightarrow> x = 1" "r = 0 \<longleftrightarrow> x = GRID_SIZE - 1"
    "u = 0 \<longleftrightarrow> y = 1" "d = 0 \<longleftrightarrow> y = GRID_SIZE - 1"
    unfolding l_def r_def u_def d_def using wrapped(3,4) assms(2,3) by simp_all
  have c: "count_neighbors s x y =
      grid s u l + grid s u x + grid s u r + grid s y l + grid s y r
      + grid s d l + grid s d x + grid s d r"
    unfolding count_neighbors_sum Let_def l_def r_def u_def d_def
    using wrapped(5) assms(2,3) by simp
  have n: "GRID_SIZE - 1 \<noteq> 0" "GRID_SIZE - 1 \<noteq> 1"
    using GRID_SIZE_ge3 by auto
  have "count_neighbors s x y =
      (if x = 1 \<and> y = 1 then 1 else 0) + (if x = 0 \<and> y = 1 then 1 else 0)
      + (if x = GRID_SIZE - 1 \<and> y = 1 then 1 else 0) + (if x = 1 \<and> y = 0 then 1 else 0)
      + (if x = GRID_SIZE - 1 \<and> y = 0 then 1 else 0)
      + (if x = 1 \<and> y = GRID_SIZE - 1 then 1 else 0)
      + (if x = 0 \<and> y = GRID_SIZE - 1 then 1 else 0)
      + (if x = GRID_SIZE - 1 \<and> y = GRID_SIZE - 1 then 1 else 0)"
    unfolding c by (simp only: g lt assms(2,3) z)
  also have "\<dots> = (if (x, y) \<in> {(GRID_SIZE - 1, GRID_SIZE - 1), (GRID_SIZE - 1, 0), (0, GRID_SIZE - 1),
                          (1, 1), (1, 0), (0, 1), (GRID_SIZE - 1, 1), (1, GRID_SIZE - 1)}
            then 1 else 0)"
    using n by auto
  finally show ?thesis .
qed


theorem count_neighbors_single_cell_witness:
  "count_neighbors single_cell_state 49 0 = 1 \<and> count_neighbors single_cell_state 1 49 = 1
   \<and> count_neighbors single_cell_state 0 0 = 0 \<and> count_neighbors single_cell_state 2 1 = 0"
proof -
  have h: "\<forall>y<GRID_SIZE. \<forall>x<GRID_SIZE.
             grid single_cell_state y x = (if x = 0 \<and> y = 0 then 1 else 0)"
    by (simp add: single_cell_state_def)
  have r: "(49::nat) < GRID_SIZE" "(0::nat) < GRID_SIZE" "(1::nat) < GRID_SIZE" "(2::nat) < GRID_SIZE"
    by (simp_all add: GRID_SIZE_def)
  show ?thesis
    using count_neighbors_single_cell [OF h r(1) r(2)] count_neighbors_single_cell [OF h r(3) r(1)]
      count_neighbors_single_cell [OF h r(2) r(2)] count_neighbors_single_cell [OF h r(4) r(3)]
    by (simp add: GRID_SIZE_def)
qed

subsection \<open>The history trail\<close>

lemma main_steps_snoc: "main_steps l (dss @ [ds]) s = main_step l ds (main_steps l dss s)"
  by (simp add: main_steps_def)

lemma main_step_history:
  assumes "\<not> main_paused l" "y < GRID_SIZE" "x < GRID_SIZE"
  shows "history_map (main_step l ds s) y x =
           (if grid (main_step l ds s) y x = 1
            then min (history_map s y x + 1) 255
            else max (history_map s y x - 1) 0)"
proof -
  obtain b_mut s_mut h where
    m: "mutate_rule (main_birth l) (main_survive l) (main_mutation l) ds (heap (animate_nutrients s))
        = ((b_mut, s_mut), h)"
    by (metis surj_pair)
  show ?thesis
    using assms(1) update_grid_cell(2) [OF m assms(2,3)]
    by (simp add: main_step_def Let_def animate_nutrients_frame)
qed

lemma main_step_history_other:
  assumes "main_paused l \<or> \<not> (y < GRID_SIZE \<and> x < GRID_SIZE)"
  shows "history_map (main_step l ds s) y x = history_map s y x"
proof (cases "main_paused l")
  case True
  then show ?thesis
    by (simp add: main_step_def Let_def animate_nutrients_frame)
next
  case False
  with assms have "\<not> (y < GRID_SIZE \<and> x < GRID_SIZE)" by simp
  from update_grid_outside(2) [OF this] False show ?thesis
    by (simp add: main_step_def Let_def animate_nutrients_frame)
qed

lemma main_step_history_range:
  assumes "0 \<le> history_map s y x \<and> history_map s y x \<le> 255"
  shows "0 \<le> history_map (main_step l ds s) y x \<and> history_map (main_step l ds s) y x \<le> 255"
proof (cases "\<not> main_paused l \<and> y < GRID_SIZE \<and> x < GRID_SIZE")
  case True
  then show ?thesis
    using assms main_step_history [of l y x ds s] by auto
next
  case False
  then show ?thesis
    using assms main_step_history_other [of l y x ds s] by auto
qed

lemma main_steps_history_range:
  assumes "0 \<le> history_map s y x \<and> history_map s y x \<le> 255"
  shows "0 \<le> history_map (main_steps l dss s) y x \<and> history_map (main_steps l dss s) y x \<le> 255"
proof (induction dss rule: rev_induct)
  case Nil
  then show ?case using assms by (simp add: main_steps_def)
next
  case (snoc ds dss)
  then show ?case
    unfolding main_steps_snoc by (rule main_step_history_range)
qed

lemma main_steps_alive_history:
  assumes "\<not> main_paused l" "y < GRID_SIZE" "x < GRID_SIZE"
    and "history_map s y x \<le> 255"
    and "\<forall>k. 1 \<le> k \<and> k \<le> length dss \<longrightarrow> grid (main_steps l (take k dss) s) y x = 1"
  shows "history_map (main_steps l dss s) y x = min (history_map s y x + int (length dss)) 255"
  using assms(5)
proof (induction dss rule: rev_induct)
  case Nil
  then show ?case
    using assms(4) by (simp add: main_steps_def)
next
  case (snoc ds dss)
  have "\<forall>k. 1 \<le> k \<and> k \<le> length dss \<longrightarrow> grid (main_steps l (take k dss) s) y x = 1"
  proof (intro allI impI)
    fix k assume k: "1 \<le> k \<and> k \<le> length dss"
    then have "1 \<le> k \<and> k \<le> length (dss @ [ds])" by simp
    with snoc.prems have "grid (main_steps l (take k (dss @ [ds])) s) y x = 1"
      by blast
    moreover from k have "take k (dss @ [ds]) = take k dss" by simp
    ultimately show "grid (main_steps l (take k dss) s) y x = 1" by simp
  qed
  then have ih: "history_map (main_steps l dss s) y x = min (history_map s y x + int (length dss)) 255"
    by (rule snoc.IH)
  have "1 \<le> length (dss @ [ds]) \<and> length (dss @ [ds]) \<le> length (dss @ [ds])" by simp
  with snoc.prems have "grid (main_steps l (take (length (dss @ [ds])) (dss @ [ds])) s) y x = 1"
    by blast
  then have alive: "grid (main_step l ds (main_steps l dss s)) y x = 1"
    by (simp add: main_steps_snoc)
  show ?case
    unfolding main_steps_snoc
    using main_step_history [OF assms(1,2,3), of ds "main_steps l dss s"] alive ih
    by simp
qed

lemma count_neighbors_full:
  assumes "\<forall>y<GRID_SIZE. \<forall>x<GRID_SIZE. grid s y x = 1" "x < GRID_SIZE" "y < GRID_SIZE"
  shows "count_neighbors s x y = 8"
  unfolding count_neighbors_sum Let_def
  using assms wrapped(1,2,5) by simp

lemma all_alive_step:
  assumes "all_alive s"
  shows "all_alive (main_step conway_locals (half_draw, half_draw) s)"
proof -
  obtain b_mut s_mut h where
    m: "mutate_rule (main_birth conway_locals) (main_survive conway_locals)
          (main_mutation conway_locals) (half_draw, half_draw) (heap s) = ((b_mut, s_mut), h)"
    by (metis surj_pair)
  have p: "\<not> main_paused conway_locals" by (simp add: conway_locals_def)
  have nf: "\<not> float_lt (rnd_random half_draw) (main_mutation conway_locals)"
    by (simp add: half_draw_def conway_locals_def)
  have b: "main_birth conway_locals < length (heap s)" "main_survive conway_locals < length (heap s)"
    using assms by (auto simp: conway_locals_def all_alive_def)
  have "py_in 8 (h ! s_mut) \<longleftrightarrow> py_in 8 (heap s ! main_survive conway_locals)"
    by (rule mutate_rule_no_mutation(2) [OF m nf nf b])
  then have s8: "py_in 8 (h ! s_mut)"
    using assms by (simp add: conway_locals_def all_alive_def py_in_def)
  have pre: "take (length (heap s)) h = heap s" "length h = length (heap s) + 4"
    using mutate_rule_prefix [OF m] by simp_all
  have "h ! 1 = take (length (heap s)) h ! 1"
    using assms by (simp add: all_alive_def)
  then have h1: "h ! 1 = PyList [8]" "1 < length h"
    using assms pre by (simp_all add: all_alive_def)
  have g: "grid (main_step conway_locals (half_draw, half_draw) s) y x = 1"
    if "y < GRID_SIZE" "x < GRID_SIZE" for y x
    using main_step_grid(1) [OF p m that] assms that s8
    by (simp add: all_alive_def count_neighbors_full)
  show ?thesis
    using g h1 main_step_grid(2) [OF p m GRID_SIZE_pos GRID_SIZE_pos]
    by (simp add: all_alive_def)
qed

lemma all_alive_steps:
  "all_alive s \<Longrightarrow> all_alive (main_steps conway_locals (replicate n (half_draw, half_draw)) s)"
proof (induction n)
  case 0
  then show ?case by (simp add: main_steps_def)
next
  case (Suc n)
  have "replicate (Suc n) (half_draw, half_draw) = replicate n (half_draw, half_draw) @ [(half_draw, half_draw)]"
    by (simp add: replicate_append_same)
  then show ?case
    using Suc by (simp only: main_steps_snoc all_alive_step)
qed

lemma all_alive_full_state: "all_alive full_state"
  by (simp add: all_alive_def full_state_def)

text \<open>
  C6. If every value of \<^verbatim>\<open>history_map\<close> lies in \<open>[0, 255]\<close>, as it does when the module is
  loaded and after \<^verbatim>\<open>randomize_grid\<close>, then it does so after every sequence of loop
  iterations. In an iteration that is not paused, the history of a cell is incremented by 1
  and capped at 255 when the cell is alive in the new grid, and decremented by 1 and floored
  at 0 when it is dead. A cell that is alive after each of 300 consecutive unpaused
  iterations has history exactly 255.
\<close>

theorem history_map_bounds:
  assumes "\<forall>y x. 0 \<le> history_map s y x \<and> history_map s y x \<le> 255"
  shows "(\<forall>y x. 0 \<le> history_map (main_steps l dss s) y x
                 \<and> history_map (main_steps l dss s) y x \<le> 255)
     \<and> (\<not> main_paused l \<and> y < GRID_SIZE \<and> x < GRID_SIZE \<longrightarrow>
          history_map (main_step l ds s) y x =
            (if grid (main_step l ds s) y x = 1
             then min (history_map s y x + 1) 255
             else max (history_map s y x - 1) 0))
     \<and> (\<not> main_paused l \<and> y < GRID_SIZE \<and> x < GRID_SIZE \<and> length dss = 300
          \<and> (\<forall>k. 1 \<le> k \<and> k \<le> 300 \<longrightarrow> grid (main_steps l (take k dss) s) y x = 1) \<longrightarrow>
          history_map (main_steps l dss s) y x = 255)"
proof (intro conjI allI impI)
  fix y' x'
  show "0 \<le> history_map (main_steps l dss s) y' x'"
    and "history_map (main_steps l dss s) y' x' \<le> 255"
    using main_steps_history_range [of s y' x' l dss] assms by simp_all
next
  assume "\<not> main_paused l \<and> y < GRID_SIZE \<and> x < GRID_SIZE"
  then show "history_map (main_step l ds s) y x =
            (if grid (main_step l ds s) y x = 1
             then min (history_map s y x + 1) 255
             else max (history_map s y x - 1) 0)"
    using main_step_history by simp
next
  assume a: "\<not> main_paused l \<and> y < GRID_SIZE \<and> x < GRID_SIZE \<and> length dss = 300
          \<and> (\<forall>k. 1 \<le> k \<and> k \<le> 300 \<longrightarrow> grid (main_steps l (take k dss) s) y x = 1)"
  have h0: "0 \<le> history_map s y x" "history_map s y x \<le> 255"
    using assms by simp_all
  from a have len: "length dss = 300" by simp
  have "history_map (main_steps l dss s) y x = min (history_map s y x + int (length dss)) 255"
  proof (rule main_steps_alive_history)
    show "\<not> main_paused l" "y < GRID_SIZE" "x < GRID_SIZE" using a by simp_all
    show "history_map s y x \<le> 255" by (rule h0)
    show "\<forall>k. 1 \<le> k \<and> k \<le> length dss \<longrightarrow> grid (main_steps l (take k dss) s) y x = 1"
      using a by simp
  qed
  then show "history_map (main_steps l dss s) y x = 255"
    using h0 by (simp add: len)
qed

theorem history_map_bounds_witness:
  "history_map (main_steps conway_locals (replicate 300 (half_draw, half_draw)) full_state) 0 0 = 255"
proof -
  have h: "\<forall>y x. 0 \<le> history_map full_state y x \<and> history_map full_state y x \<le> 255"
    by (simp add: full_state_def initial_state_def)
  have alive: "\<forall>k. 1 \<le> k \<and> k \<le> 300 \<longrightarrow>
      grid (main_steps conway_locals (take k (replicate 300 (half_draw, half_draw))) full_state) 0 0 = 1"
  proof (intro allI impI)
    fix k :: nat
    assume "1 \<le> k \<and> k \<le> 300"
    then have "take k (replicate 300 (half_draw, half_draw)) = replicate k (half_draw, half_draw)"
      by (simp add: min_def)
    then show "grid (main_steps conway_locals (take k (replicate 300 (half_draw, half_draw))) full_state) 0 0 = 1"
      using all_alive_steps [OF all_alive_full_state, of k] GRID_SIZE_pos
      by (simp add: all_alive_def)
  qed
  have p: "\<not> main_paused conway_locals" by (simp add: conway_locals_def)
  from history_map_bounds [OF h, of conway_locals "replicate 300 (half_draw, half_draw)" 0 0] p alive
    GRID_SIZE_pos
  show ?thesis by simp
qed

subsection \<open>The stored rule\<close>

lemma main_step_store:
  "take (length (heap s)) (heap (main_step l ds s)) = heap s
   \<and> length (heap s) \<le> length (heap (main_step l ds s))
   \<and> DNA (main_step l ds s) = DNA s"
proof (cases "main_paused l")
  case True
  then show ?thesis
    by (simp add: main_step_def Let_def animate_nutrients_frame)
next
  case False
  obtain b_mut s_mut h where
    m: "mutate_rule (main_birth l) (main_survive l) (main_mutation l) ds (heap (animate_nutrients s))
        = ((b_mut, s_mut), h)"
    by (metis surj_pair)
  from False update_grid_frame(1,3) [OF m] mutate_rule_prefix(3,4) [OF m]
  show ?thesis
    by (simp add: main_step_def Let_def animate_nutrients_frame)
qed

lemma main_steps_store:
  "take (length (heap s)) (heap (main_steps l dss s)) = heap s
   \<and> length (heap s) \<le> length (heap (main_steps l dss s))
   \<and> DNA (main_steps l dss s) = DNA s"
proof (induction dss rule: rev_induct)
  case Nil
  then show ?case by (simp add: main_steps_def)
next
  case (snoc ds dss)
  let ?s1 = "main_steps l dss s"
  let ?s2 = "main_step l ds ?s1"
  from main_step_store [of ?s1 l ds]
  have st: "take (length (heap ?s1)) (heap ?s2) = heap ?s1"
    "length (heap ?s1) \<le> length (heap ?s2)" "DNA ?s2 = DNA ?s1"
    by simp_all
  from snoc have ih: "take (length (heap s)) (heap ?s1) = heap s"
    "length (heap s) \<le> length (heap ?s1)" "DNA ?s1 = DNA s"
    by simp_all
  have "take (length (heap s)) (heap ?s2) = take (length (heap s)) (take (length (heap ?s1)) (heap ?s2))"
    using ih(2) by (simp add: min_def)
  also have "\<dots> = heap s"
    using st(1) ih(1) by simp
  finally show ?case
    using st ih by (simp add: main_steps_snoc)
qed

text \<open>
  C8. \<^verbatim>\<open>mutate_rule\<close> never writes to the lists it is given: the two lists it returns are
  new objects of the store, different from each other and from every object that existed
  before the call, all of which are unchanged. So after any number of loop iterations,
  whatever the mutation rate (1.0 in particular), the lists that \<^verbatim>\<open>birth\<close> and \<^verbatim>\<open>survive\<close>
  refer to and the rule text \<^verbatim>\<open>DNA\<close> are what they were.
\<close>

theorem mutation_keeps_stored_rule:
  assumes "main_birth l < length (heap s)" "main_survive l < length (heap s)"
  shows "heap (main_steps l dss s) ! main_birth l = heap s ! main_birth l
       \<and> heap (main_steps l dss s) ! main_survive l = heap s ! main_survive l
       \<and> DNA (main_steps l dss s) = DNA s
       \<and> (mutate_rule (main_birth l) (main_survive l) (main_mutation l) ds (heap s) = ((b_mut, s_mut), h)
            \<longrightarrow> length (heap s) \<le> b_mut \<and> length (heap s) \<le> s_mut \<and> b_mut \<noteq> s_mut
                \<and> b_mut < length h \<and> s_mut < length h
                \<and> (\<forall>r<length (heap s). h ! r = heap s ! r))"
proof -
  have k: "heap (main_steps l dss s) ! r = heap s ! r" if "r < length (heap s)" for r
  proof -
    have "heap s ! r = take (length (heap s)) (heap (main_steps l dss s)) ! r"
      using main_steps_store [of s l dss] by simp
    with that show ?thesis by simp
  qed
  have "length (heap s) \<le> b_mut \<and> length (heap s) \<le> s_mut \<and> b_mut \<noteq> s_mut
                \<and> b_mut < length h \<and> s_mut < length h
                \<and> (\<forall>r<length (heap s). h ! r = heap s ! r)"
    if m: "mutate_rule (main_birth l) (main_survive l) (main_mutation l) ds (heap s) = ((b_mut, s_mut), h)"
  proof -
    have "h ! r = heap s ! r" if "r < length (heap s)" for r
    proof -
      have "heap s ! r = take (length (heap s)) h ! r"
        using mutate_rule_prefix(4) [OF m] by simp
      with that show ?thesis by simp
    qed
    then show ?thesis
      using mutate_rule_prefix(1,2,3) [OF m] by simp
  qed
  then show ?thesis
    using k assms main_steps_store [of s l dss] by blast
qed

theorem mutation_keeps_stored_rule_witness:
  "heap (main_steps mutating_locals [(half_draw, half_draw), (half_draw, half_draw)] block_state) ! 0 = PyList [3]
   \<and> heap (main_steps mutating_locals [(half_draw, half_draw), (half_draw, half_draw)] block_state) ! 1 = PyList [2, 3]
   \<and> DNA (main_steps mutating_locals [(half_draw, half_draw), (half_draw, half_draw)] block_state) = ''B3/S23|M0''
   \<and> mutate_rule 0 1 (Finite 1.0) (half_draw, half_draw) (heap block_state)
       = ((3, 5), [PyList [3], PyList [2, 3], PySet {|3, 4|}, PyList [3, 4],
                   PySet {|2, 3, 4|}, PyList [2, 3, 4]])"
proof -
  have b: "main_birth mutating_locals < length (heap block_state)"
    "main_survive mutating_locals < length (heap block_state)"
    by (simp_all add: mutating_locals_def block_state_def)
  have m: "mutate_rule 0 1 (Finite 1.0) (half_draw, half_draw) (heap block_state)
       = ((3, 5), [PyList [3], PyList [2, 3], PySet {|3, 4|}, PyList [3, 4],
                   PySet {|2, 3, 4|}, PyList [2, 3, 4]])"
    by code_simp
  from mutation_keeps_stored_rule [OF b, of "[(half_draw, half_draw), (half_draw, half_draw)]"
      "(half_draw, half_draw)" 3 5
      "[PyList [3], PyList [2, 3], PySet {|3, 4|}, PyList [3, 4], PySet {|2, 3, 4|}, PyList [2, 3, 4]]"] m
  show ?thesis
    by (simp add: mutating_locals_def block_state_def)
qed

end
